theory Spec2Isabelle
  imports Main "HOL-Library.Sublist"
begin

section \<open>The dev dashboard's project manager (SCRIPTS/dashboard.py)\<close>

text \<open>
  A shallow embedding of class \<open>ProjectManager\<close>. The three dictionaries of the
  object (\<open>processes\<close>, \<open>statuses\<close>, \<open>exit_codes\<close>) are maps; every method takes the
  manager and returns it updated. Each method body runs under \<open>self.lock\<close>, so one call is
  one atomic step. What the operating system answers during a call (port probes, marker
  files, the outcome of \<open>Popen\<close>, \<open>poll\<close>, \<open>wait\<close>, \<open>getpgid\<close>, \<open>lsof\<close>) is a
  parameter \<open>os\<close> of the call; what the call asks of the operating system (processes
  spawned, signals sent, waits, sleeps) is appended to a trace. Within one call the
  operating system gives one answer per question (\<open>getpgid\<close> of a pid answers the same
  before \<open>SIGTERM\<close> and before \<open>SIGKILL\<close>). Opening the log file and creating the
  probe socket are taken not to fail. The loops of \<open>stop_all\<close>, \<open>stop_group\<close> and of
  the threads of \<open>start_all\<close>, \<open>start_group\<close> take the lock once per project, inside
  \<open>stop\<close> and \<open>start\<close>; they are modelled run without another call in between.
\<close>

subsection \<open>Registry\<close>

datatype status = Stopped | Building | Running | Error | Unmanaged

record project_info =
  name :: string
  port :: nat
  dir :: string
  group :: string

definition mk :: "string \<Rightarrow> nat \<Rightarrow> string \<Rightarrow> string \<Rightarrow> project_info" where
  "mk n p d g = \<lparr>name = n, port = p, dir = d, group = g\<rparr>"

text \<open>The dictionary \<open>PROJECTS\<close>, in insertion order (the order of every loop over it).\<close>

definition PROJECTS :: "(string \<times> project_info) list" where
  "PROJECTS =
    [(''welcome'',   mk ''Welcome'' 8080 ''WELCOME'' ''MAIN''),
     (''helios'',    mk ''Helios'' 8081 ''HELIOS'' ''MAIN''),
     (''blog'',      mk ''Blog'' 8085 ''BLOG'' ''MAIN''),
     (''arch'',      mk ''Arch'' 8087 ''ARCH'' ''MAIN''),
     (''mcad'',      mk ''MCAD'' 8088 ''MCAD'' ''MAIN''),
     (''atlas'',     mk ''Atlas'' 8089 ''ATLAS'' ''MAIN''),
     (''learn'',     mk ''Learn Hub'' 8086 ''LEARN'' ''LEARN HUB''),
     (''ai'',        mk ''AI'' 8100 ''LEARN/AI'' ''LEARN''),
     (''ubuntu'',    mk ''Ubuntu'' 8101 ''LEARN/UBUNTU'' ''LEARN''),
     (''opencv'',    mk ''OpenCV'' 8102 ''LEARN/OPENCV'' ''LEARN''),
     (''arduino'',   mk ''Arduino'' 8103 ''LEARN/ARDUINO'' ''LEARN''),
     (''esp32'',     mk ''ESP32'' 8104 ''LEARN/ESP32'' ''LEARN''),
     (''swarm'',     mk ''Swarm'' 8105 ''LEARN/SWARM_ROBOTICS'' ''LEARN''),
     (''slam'',      mk ''SLAM'' 8106 ''LEARN/SLAM'' ''LEARN''),
     (''git'',       mk ''Git'' 8107 ''LEARN/GIT'' ''LEARN''),
     (''ds'',        mk ''Data Structures'' 8108 ''LEARN/DATA_STRUCTURES'' ''LEARN''),
     (''python'',    mk ''Python'' 8110 ''LEARN/PYTHON'' ''LEARN''),
     (''sensors'',   mk ''Sensors'' 8083 ''LEARN/SENSORS'' ''LEARN''),
     (''pll'',       mk ''PLL'' 8090 ''TOOLS/PLL'' ''TOOLS''),
     (''autocrate'', mk ''Autocrate'' 8084 ''TOOLS/AUTOCRATE'' ''TOOLS''),
     (''power'',     mk ''Power'' 8091 ''TOOLS/POWER_CIRCUITS'' ''TOOLS''),
     (''spice'',     mk ''SPICE'' 8123 ''TOOLS/SPICE'' ''TOOLS''),
     (''chladni'',   mk ''Chladni'' 8082 ''SIMULATION/CHLADNI'' ''SIMULATION''),
     (''handtrack'', mk ''Handtrack'' 8121 ''SIMULATION/HANDTRACK'' ''SIMULATION''),
     (''powerlaw'',  mk ''Power Law'' 8122 ''SIMULATION/POWERLAW'' ''SIMULATION'')]"

subsection \<open>Process handles and the operating system\<close>

text \<open>
  A \<open>Popen\<close> object: the child's pid and the attribute \<open>returncode\<close>, which is
  \<open>None\<close> until \<open>poll\<close> or \<open>wait\<close> has seen the child exit.
\<close>

record popen =
  pid :: nat
  returncode :: "int option"

text \<open>
  The outcome of \<open>subprocess.Popen(...)\<close>: a child with a pid, the exception
  \<open>FileNotFoundError\<close> (the only one \<open>start\<close> catches), or another \<open>OSError\<close>
  such as \<open>PermissionError\<close> (a \<open>trunk\<close> that is not executable) or a failed fork.
\<close>

datatype spawn = SpawnOK nat | SpawnFileNotFound | SpawnOtherOSError

text \<open>
  The outcome of \<open>subprocess.run(["lsof", "-t", "-i", ":port"], ...)\<close> in
  \<open>_kill_port\<close>: the non-blank lines of its output, each one the integer \<open>int(...)\<close>
  parses it to or \<open>None\<close> for \<open>ValueError\<close>; one of the two exceptions \<open>_kill_port\<close>
  catches (\<open>TimeoutExpired\<close>, \<open>FileNotFoundError\<close>); or another \<open>OSError\<close>, which it
  does not catch.
\<close>

datatype lsof_result = LsofLines "int option list" | LsofCaught | LsofOtherOSError

record os =
  port_open :: "nat \<Rightarrow> bool"
  exists_index :: "string \<Rightarrow> bool"
  exists_trunk :: "string \<Rightarrow> bool"
  spawn_trunk :: "string \<Rightarrow> spawn"
  os_poll :: "nat \<Rightarrow> int option"
  os_wait :: "nat \<Rightarrow> int option"
  getpgid :: "nat \<Rightarrow> nat option"
  lsof :: "nat \<Rightarrow> lsof_result"
  fits_pid_t :: "int \<Rightarrow> bool"

text \<open>
  \<open>port_open p\<close>: \<open>_port_open(p)\<close>, a connect to 127.0.0.1:p succeeded.
  \<open>exists_index d\<close>, \<open>exists_trunk d\<close>: \<open>index.html\<close>, \<open>Trunk.toml\<close> exist in
  directory \<open>d\<close> of the repository. \<open>spawn_trunk i\<close>: what \<open>Popen\<close> does for project
  \<open>i\<close>. \<open>os_poll n\<close>: the exit status a non-blocking \<open>waitpid\<close> on pid \<open>n\<close> finds, if
  the child has exited. \<open>os_wait n\<close>: the exit status if the child exits within the 3 seconds
  of \<open>proc.wait(timeout=3)\<close>, \<open>None\<close> for \<open>TimeoutExpired\<close>. \<open>getpgid n\<close>:
  \<open>None\<close> when \<open>os.getpgid\<close> raises. \<open>lsof p\<close>: what running \<open>lsof\<close> for port
  \<open>p\<close> gives. \<open>fits_pid_t n\<close>: the integer \<open>n\<close> converts to the platform's
  \<open>pid_t\<close>; when it does not, \<open>os.kill(n, ...)\<close> raises \<open>OverflowError\<close>, which is
  neither an \<open>OSError\<close> nor a \<open>ValueError\<close>.
\<close>

text \<open>
  The calls the manager makes: \<open>Spawn d p\<close> is the \<open>Popen\<close> of \<open>trunk serve\<close>
  in directory \<open>d\<close> for port \<open>p\<close> that gave a child; \<open>Killpg g s\<close> is
  \<open>os.killpg(g, s)\<close>; \<open>Kill n s\<close> is \<open>os.kill(n, s)\<close>; \<open>Wait n t\<close> is
  \<open>proc.wait(timeout=t)\<close> on the child with pid \<open>n\<close>; \<open>Sleep t\<close> is
  \<open>time.sleep(t)\<close>.
\<close>

datatype signal = SIGTERM | SIGKILL

datatype os_call =
    Spawn string nat
  | Killpg nat signal
  | Kill int signal
  | Wait nat nat
  | Sleep nat

datatype task = StaggeredAll | StaggeredGroup string

subsection \<open>Manager state\<close>

text \<open>
  \<open>log_files i\<close> is the content (lines) of \<open>LOG_DIR/i.log\<close>, \<open>None\<close> when the file
  does not exist. \<open>stdout_of n = Some i\<close>: the child with pid \<open>n\<close> was spawned with
  the open file \<open>LOG_DIR/i.log\<close> as its standard output and standard error
  (\<open>stdout=lf, stderr=subprocess.STDOUT\<close>). \<open>threads\<close> lists the background threads
  the manager has started and \<open>trace\<close> the calls it has made to the operating system.
\<close>

record manager =
  processes :: "string \<rightharpoonup> popen"
  statuses :: "string \<rightharpoonup> status"
  exit_codes :: "string \<rightharpoonup> int option"
  log_files :: "string \<rightharpoonup> string list"
  stdout_of :: "nat \<rightharpoonup> string"
  threads :: "task list"
  trace :: "os_call list"

datatype exn = KeyError | OSError | OverflowError

text \<open>
  A call returns a value or raises; either way the manager is left in some state
  (what was written before a raise stays written).
\<close>

datatype 'a outcome = Returned 'a manager | Raised exn manager

fun final :: "'a outcome \<Rightarrow> manager" where
  "final (Returned v st) = st"
| "final (Raised e st) = st"

definition emit :: "os_call \<Rightarrow> manager \<Rightarrow> manager" where
  "emit c st = st\<lparr>trace := trace st @ [c]\<rparr>"

subsection \<open>\<open>__init__\<close>\<close>

fun init_loop :: "os \<Rightarrow> (string \<times> project_info) list \<Rightarrow> manager \<Rightarrow> manager" where
  "init_loop env [] st = st"
| "init_loop env ((i, info) # ps) st =
     init_loop env ps
       (st\<lparr>statuses := (statuses st)(i \<mapsto> (if port_open env (port info) then Unmanaged else Stopped)),
           exit_codes := (exit_codes st)(i \<mapsto> None)\<rparr>)"

definition init :: "os \<Rightarrow> (string \<rightharpoonup> string list) \<Rightarrow> manager" where
  "init env files =
     init_loop env PROJECTS
       \<lparr>processes = Map.empty, statuses = Map.empty, exit_codes = Map.empty,
        log_files = files, stdout_of = Map.empty, threads = [], trace = []\<rparr>"

subsection \<open>\<open>start\<close>\<close>

definition start :: "os \<Rightarrow> manager \<Rightarrow> string \<Rightarrow> bool outcome" where
  "start env st project_id =
     (case map_of PROJECTS project_id of
        None \<Rightarrow> Returned False st
      | Some info \<Rightarrow>
          if statuses st project_id = Some Running \<or> statuses st project_id = Some Building
             \<or> statuses st project_id = Some Unmanaged
          then Returned False st
          else if \<not> exists_index env (dir info) \<and> \<not> exists_trunk env (dir info)
          then Returned False (st\<lparr>statuses := (statuses st)(project_id \<mapsto> Error)\<rparr>)
          else
            let st1 = st\<lparr>log_files := (log_files st)(project_id \<mapsto> [])\<rparr> in
            (case spawn_trunk env project_id of
               SpawnFileNotFound \<Rightarrow>
                 Returned False (st1\<lparr>statuses := (statuses st1)(project_id \<mapsto> Error)\<rparr>)
             | SpawnOtherOSError \<Rightarrow> Raised OSError st1
             | SpawnOK n \<Rightarrow>
                 Returned True
                   (st1\<lparr>processes := (processes st1)(project_id \<mapsto> \<lparr>pid = n, returncode = None\<rparr>),
                        statuses := (statuses st1)(project_id \<mapsto> Building),
                        exit_codes := (exit_codes st1)(project_id \<mapsto> None),
                        stdout_of := (stdout_of st1)(n \<mapsto> project_id),
                        trace := trace st1 @ [Spawn (dir info) (port info)]\<rparr>)))"

subsection \<open>\<open>stop\<close> and \<open>_kill_port\<close>\<close>

text \<open>
  The two \<open>try\<close> blocks of \<open>stop\<close>: \<open>os.getpgid\<close>, then \<open>os.killpg\<close>; a
  \<open>ProcessLookupError\<close> or \<open>OSError\<close> of either is swallowed.
\<close>

definition killpg_try :: "os \<Rightarrow> popen \<Rightarrow> signal \<Rightarrow> manager \<Rightarrow> manager" where
  "killpg_try env proc sg st =
     (case getpgid env (pid proc) of
        None \<Rightarrow> st
      | Some pgid \<Rightarrow> emit (Killpg pgid sg) st)"

text \<open>
  \<open>proc.wait(timeout=3)\<close>: returns at once when \<open>returncode\<close> is already set; otherwise
  sets it when the child exits in time and leaves it \<open>None\<close> when the wait times out.
\<close>

definition wait :: "os \<Rightarrow> popen \<Rightarrow> popen" where
  "wait env proc =
     (case returncode proc of
        Some rc \<Rightarrow> proc
      | None \<Rightarrow> proc\<lparr>returncode := os_wait env (pid proc)\<rparr>)"

text \<open>
  The loop of \<open>_kill_port\<close> over the output lines. The inner \<open>try\<close> swallows
  \<open>ProcessLookupError\<close>, \<open>OSError\<close> and \<open>ValueError\<close>; the \<open>OverflowError\<close> of
  \<open>os.kill\<close> for an integer that is no \<open>pid_t\<close> is caught nowhere and ends the loop.
\<close>

fun kill_each :: "os \<Rightarrow> int option list \<Rightarrow> manager \<Rightarrow> unit outcome" where
  "kill_each env [] st = Returned () st"
| "kill_each env (None # ls) st = kill_each env ls st"
| "kill_each env (Some n # ls) st =
     (if fits_pid_t env n then kill_each env ls (emit (Kill n SIGTERM) st)
      else Raised OverflowError st)"

definition kill_port :: "os \<Rightarrow> nat \<Rightarrow> manager \<Rightarrow> unit outcome" where
  "kill_port env p st =
     (case lsof env p of
        LsofCaught \<Rightarrow> Returned () st
      | LsofOtherOSError \<Rightarrow> Raised OSError st
      | LsofLines ls \<Rightarrow> kill_each env ls st)"

definition stop :: "os \<Rightarrow> manager \<Rightarrow> string \<Rightarrow> bool outcome" where
  "stop env st project_id =
     (case processes st project_id of
        None \<Rightarrow>
          if statuses st project_id = Some Unmanaged
          then (case map_of PROJECTS project_id of
                  None \<Rightarrow> Raised KeyError st
                | Some info \<Rightarrow>
                    (case kill_port env (port info) st of
                       Raised x st1 \<Rightarrow> Raised x st1
                     | Returned u st1 \<Rightarrow>
                         Returned True (st1\<lparr>statuses := (statuses st1)(project_id \<mapsto> Stopped)\<rparr>)))
          else Returned False st
      | Some proc \<Rightarrow>
          let st1 = killpg_try env proc SIGTERM st;
              st2 = emit (Wait (pid proc) 3) st1;
              proc' = wait env proc;
              st3 = (if returncode proc' = None then killpg_try env proc SIGKILL st2 else st2)
          in Returned True
               (st3\<lparr>processes := (processes st3)(project_id := None),
                    statuses := (statuses st3)(project_id \<mapsto> Stopped),
                    exit_codes := (exit_codes st3)(project_id \<mapsto> returncode proc')\<rparr>))"

subsection \<open>\<open>update_statuses\<close>\<close>

text \<open>\<open>proc.poll()\<close>: the stored \<open>returncode\<close> if there is one, else what the OS reports.\<close>

definition poll :: "os \<Rightarrow> popen \<Rightarrow> int option" where
  "poll env proc =
     (case returncode proc of
        Some rc \<Rightarrow> Some rc
      | None \<Rightarrow> os_poll env (pid proc))"

text \<open>The body of the loop, for one entry of \<open>PROJECTS\<close>.\<close>

definition update_one :: "os \<Rightarrow> string \<times> project_info \<Rightarrow> manager \<Rightarrow> unit outcome" where
  "update_one env e st =
     (let i = fst e; info = snd e; port_up = port_open env (port info) in
      case processes st i of
        Some proc \<Rightarrow>
          (case poll env proc of
             Some rc \<Rightarrow>
               Returned ()
                 (st\<lparr>exit_codes := (exit_codes st)(i \<mapsto> Some rc),
                     processes := (processes st)(i := None),
                     statuses := (statuses st)(i \<mapsto> (if rc = 0 then Stopped else Error))\<rparr>)
           | None \<Rightarrow>
               if port_up
               then Returned () (st\<lparr>statuses := (statuses st)(i \<mapsto> Running)\<rparr>)
               else Returned () (st\<lparr>statuses := (statuses st)(i \<mapsto> Building)\<rparr>))
      | None \<Rightarrow>
          (case statuses st i of
             None \<Rightarrow> Raised KeyError st
           | Some s \<Rightarrow>
               if s = Unmanaged
               then (if \<not> port_up
                     then Returned () (st\<lparr>statuses := (statuses st)(i \<mapsto> Stopped)\<rparr>)
                     else Returned () st)
               else if s = Stopped \<and> port_up
               then Returned () (st\<lparr>statuses := (statuses st)(i \<mapsto> Unmanaged)\<rparr>)
               else Returned () st))"

fun update_loop :: "os \<Rightarrow> (string \<times> project_info) list \<Rightarrow> manager \<Rightarrow> unit outcome" where
  "update_loop env [] st = Returned () st"
| "update_loop env (e # ps) st =
     (case update_one env e st of
        Raised x st' \<Rightarrow> Raised x st'
      | Returned u st' \<Rightarrow> update_loop env ps st')"

definition update_statuses :: "os \<Rightarrow> manager \<Rightarrow> unit outcome" where
  "update_statuses env st = update_loop env PROJECTS st"

subsection \<open>Bulk operations\<close>

text \<open>
  \<open>start_all\<close> and \<open>start_group\<close> define the closure \<open>_staggered\<close>, start a daemon
  thread on it and return. \<open>staggered\<close> is the closure's loop (\<open>sel\<close> is the group
  test, constantly true for \<open>start_all\<close>); \<open>run_task\<close> is what a started thread does
  when it runs.
\<close>

fun staggered :: "os \<Rightarrow> (project_info \<Rightarrow> bool) \<Rightarrow> (string \<times> project_info) list \<Rightarrow> manager \<Rightarrow> unit outcome" where
  "staggered env sel [] st = Returned () st"
| "staggered env sel ((i, info) # ps) st =
     (if sel info \<and> statuses st i = Some Stopped
      then (case start env st i of
              Raised x st' \<Rightarrow> Raised x st'
            | Returned b st' \<Rightarrow> staggered env sel ps (emit (Sleep 1) st'))
      else staggered env sel ps st)"

fun run_task :: "os \<Rightarrow> task \<Rightarrow> manager \<Rightarrow> unit outcome" where
  "run_task env StaggeredAll st = staggered env (\<lambda>info. True) PROJECTS st"
| "run_task env (StaggeredGroup g) st = staggered env (\<lambda>info. group info = g) PROJECTS st"


definition start_all :: "manager \<Rightarrow> manager" where
  "start_all st = st\<lparr>threads := threads st @ [StaggeredAll]\<rparr>"

definition start_group :: "manager \<Rightarrow> string \<Rightarrow> manager" where
  "start_group st g = st\<lparr>threads := threads st @ [StaggeredGroup g]\<rparr>"

text \<open>
  \<open>stop_all\<close> and \<open>stop_group\<close> have no closure and no thread: the loop runs in the
  caller.
\<close>

fun stop_loop :: "os \<Rightarrow> (project_info \<Rightarrow> bool) \<Rightarrow> (string \<times> project_info) list \<Rightarrow> manager \<Rightarrow> unit outcome" where
  "stop_loop env sel [] st = Returned () st"
| "stop_loop env sel ((i, info) # ps) st =
     (if sel info \<and> (statuses st i = Some Running \<or> statuses st i = Some Building
                      \<or> statuses st i = Some Unmanaged)
      then (case stop env st i of
              Raised x st' \<Rightarrow> Raised x st'
            | Returned b st' \<Rightarrow> stop_loop env sel ps st')
      else stop_loop env sel ps st)"



subsection \<open>Invariants and reachable states\<close>

text \<open>What the manager holds for one project id: handle, status, exit code.\<close>

definition view :: "manager \<Rightarrow> string \<Rightarrow> popen option \<times> status option \<times> int option option" where
  "view st i = (processes st i, statuses st i, exit_codes st i)"

text \<open>A handle is held only for a project whose status is building or running.\<close>

definition handle_inv :: "manager \<Rightarrow> bool" where
  "handle_inv st \<longleftrightarrow>
     (\<forall>i. processes st i \<noteq> None \<longrightarrow> statuses st i = Some Building \<or> statuses st i = Some Running)"

text \<open>Every project of the registry has a status (\<open>__init__\<close> writes one for each).\<close>

definition tracked :: "manager \<Rightarrow> bool" where
  "tracked st \<longleftrightarrow> fst ` set PROJECTS \<subseteq> dom (statuses st)"

text \<open>
  The states the manager can be in: it is constructed by \<open>__init__\<close> and then changed
  only by calls of \<open>start\<close>, \<open>stop\<close> and \<open>update_statuses\<close> (each atomic under the
  lock), by \<open>start_all\<close> and \<open>start_group\<close> starting a thread, and by the sleeps of
  those threads. The loops of the threads, of \<open>stop_all\<close> and of \<open>stop_group\<close> are
  sequences of such steps (lemmas \<open>reachable_run_task\<close>, \<open>reachable_stop_loop\<close>).
\<close>

inductive reachable :: "manager \<Rightarrow> bool" where
  r_init: "reachable (init env files)"
| r_start: "reachable st \<Longrightarrow> reachable (final (start env st i))"
| r_stop: "reachable st \<Longrightarrow> reachable (final (stop env st i))"
| r_update: "reachable st \<Longrightarrow> reachable (final (update_statuses env st))"
| r_start_all: "reachable st \<Longrightarrow> reachable (start_all st)"
| r_start_group: "reachable st \<Longrightarrow> reachable (start_group st g)"
| r_sleep: "reachable st \<Longrightarrow> reachable (emit (Sleep 1) st)"






subsection \<open>Example environments and states\<close>

text \<open>
  A machine on which no port is open, every project directory has \<open>index.html\<close>,
  \<open>trunk\<close> starts as pid 4242 and keeps running until it is signalled, then exits with 0.
\<close>

definition quiet_os :: os where
  "quiet_os =
     \<lparr>port_open = (\<lambda>p. False), exists_index = (\<lambda>d. True), exists_trunk = (\<lambda>d. False),
      spawn_trunk = (\<lambda>i. SpawnOK 4242), os_poll = (\<lambda>n. None), os_wait = (\<lambda>n. Some 0),
      getpgid = (\<lambda>n. Some n), lsof = (\<lambda>p. LsofLines []),
      fits_pid_t = (\<lambda>n. - 2147483648 \<le> n \<and> n \<le> 2147483647)\<rparr>"

text \<open>The manager right after construction on that machine: every project stopped.\<close>

definition idle :: manager where
  "idle = init quiet_os Map.empty"

text \<open>The same with project \<open>welcome\<close> in status error, its last exit code 7.\<close>

definition failed :: manager where
  "failed = idle\<lparr>statuses := (statuses idle)(''welcome'' \<mapsto> Error),
                  exit_codes := (exit_codes idle)(''welcome'' \<mapsto> Some 7)\<rparr>"

text \<open>\<open>welcome\<close> started on the quiet machine: building, owned as pid 4242.\<close>

definition serving :: manager where
  "serving = final (start quiet_os idle ''welcome'')"

text \<open>A machine whose children do not exit within the 3 seconds after \<open>SIGTERM\<close>.\<close>

definition stubborn_os :: os where
  "stubborn_os = quiet_os\<lparr>os_wait := (\<lambda>n. None)\<rparr>"

text \<open>The manager constructed when \<open>welcome.log\<close> holds a line of an earlier run.\<close>

definition logged :: manager where
  "logged = init quiet_os [''welcome'' \<mapsto> [''old run'']]"

text \<open>
  Machines on which \<open>Popen\<close> raises \<open>PermissionError\<close>, on which no project directory
  has a marker file, and on which \<open>Popen\<close> raises \<open>FileNotFoundError\<close>.
\<close>

definition denied_os :: os where
  "denied_os = quiet_os\<lparr>spawn_trunk := (\<lambda>i. SpawnOtherOSError)\<rparr>"

definition bare_os :: os where
  "bare_os = quiet_os\<lparr>exists_index := (\<lambda>d. False)\<rparr>"

definition missing_os :: os where
  "missing_os = quiet_os\<lparr>spawn_trunk := (\<lambda>i. SpawnFileNotFound)\<rparr>"



text \<open>
  A fleet with one project in each row of the reconciliation table: the children of
  \<open>welcome\<close> and \<open>helios\<close> have exited with 0 and 7, those of \<open>blog\<close> and \<open>arch\<close>
  run; the ports of \<open>blog\<close> (8085), \<open>atlas\<close> (8089) and \<open>learn\<close> (8086) are open.
\<close>

definition fleet_os :: os where
  "fleet_os = quiet_os\<lparr>port_open := (\<lambda>p. p = 8085 \<or> p = 8089 \<or> p = 8086),
                        os_poll := (\<lambda>n. if n = 1 then Some 0 else if n = 2 then Some 7 else None)\<rparr>"

definition fleet :: manager where
  "fleet = idle
     \<lparr>processes := [''welcome'' \<mapsto> \<lparr>pid = 1, returncode = None\<rparr>,
                    ''helios'' \<mapsto> \<lparr>pid = 2, returncode = None\<rparr>,
                    ''blog'' \<mapsto> \<lparr>pid = 3, returncode = None\<rparr>,
                    ''arch'' \<mapsto> \<lparr>pid = 4, returncode = None\<rparr>],
      statuses := (statuses idle)
                   (''welcome'' \<mapsto> Building, ''helios'' \<mapsto> Running, ''blog'' \<mapsto> Building,
                    ''arch'' \<mapsto> Running, ''mcad'' \<mapsto> Unmanaged, ''atlas'' \<mapsto> Unmanaged,
                    ''learn'' \<mapsto> Stopped, ''ai'' \<mapsto> Stopped, ''ubuntu'' \<mapsto> Error)\<rparr>"

section \<open>Properties\<close>

subsection \<open>The registry\<close>

lemma distinct_PROJECTS: "distinct (map fst PROJECTS)"
  by (simp add: PROJECTS_def)


lemma welcome_known: "(''welcome'', mk ''Welcome'' 8080 ''WELCOME'' ''MAIN'') \<in> set PROJECTS"
  by (simp add: PROJECTS_def)

lemma welcome_info: "map_of PROJECTS ''welcome'' = Some (mk ''Welcome'' 8080 ''WELCOME'' ''MAIN'')"
  by (simp add: PROJECTS_def)

lemma nosuch_unknown: "map_of PROJECTS ''nosuch'' = None"
  by (simp add: PROJECTS_def)

lemma nosuch_untracked: "''nosuch'' \<notin> fst ` set PROJECTS"
  by (simp add: PROJECTS_def)

subsection \<open>Calls that only extend the trace\<close>

lemma emit_fields [simp]:
  "processes (emit c st) = processes st"
  "statuses (emit c st) = statuses st"
  "exit_codes (emit c st) = exit_codes st"
  "log_files (emit c st) = log_files st"
  "stdout_of (emit c st) = stdout_of st"
  "threads (emit c st) = threads st"
  "trace (emit c st) = trace st @ [c]"
  by (simp_all add: emit_def)

lemma killpg_try_fields [simp]:
  "processes (killpg_try env p sg st) = processes st"
  "statuses (killpg_try env p sg st) = statuses st"
  "exit_codes (killpg_try env p sg st) = exit_codes st"
  "log_files (killpg_try env p sg st) = log_files st"
  "stdout_of (killpg_try env p sg st) = stdout_of st"
  "threads (killpg_try env p sg st) = threads st"
  by (simp_all add: killpg_try_def split: option.splits)

lemma kill_each_fields [simp]:
  "processes (final (kill_each env ls st)) = processes st"
  "statuses (final (kill_each env ls st)) = statuses st"
  "exit_codes (final (kill_each env ls st)) = exit_codes st"
  "log_files (final (kill_each env ls st)) = log_files st"
  "stdout_of (final (kill_each env ls st)) = stdout_of st"
  "threads (final (kill_each env ls st)) = threads st"
  by (induction env ls st rule: kill_each.induct) simp_all

lemma kill_port_fields [simp]:
  "processes (final (kill_port env p st)) = processes st"
  "statuses (final (kill_port env p st)) = statuses st"
  "exit_codes (final (kill_port env p st)) = exit_codes st"
  "log_files (final (kill_port env p st)) = log_files st"
  "stdout_of (final (kill_port env p st)) = stdout_of st"
  "threads (final (kill_port env p st)) = threads st"
  by (simp_all add: kill_port_def split: lsof_result.splits)



text \<open>Whether it returns or raises, \<open>_kill_port\<close> leaves the dictionaries alone.\<close>

lemma kill_port_ReturnedD:
  "kill_port env p st = Returned u st1 \<Longrightarrow>
   processes st1 = processes st \<and> statuses st1 = statuses st \<and> exit_codes st1 = exit_codes st
   \<and> log_files st1 = log_files st \<and> stdout_of st1 = stdout_of st \<and> threads st1 = threads st"
  using kill_port_fields [of env p st] by simp

lemma kill_port_RaisedD:
  "kill_port env p st = Raised x st1 \<Longrightarrow>
   processes st1 = processes st \<and> statuses st1 = statuses st \<and> exit_codes st1 = exit_codes st
   \<and> log_files st1 = log_files st \<and> stdout_of st1 = stdout_of st \<and> threads st1 = threads st"
  using kill_port_fields [of env p st] by simp

subsection \<open>Construction\<close>

lemma init_loop_processes: "processes (init_loop env ps st) = processes st"
  by (induction env ps st rule: init_loop.induct) simp_all

lemma init_loop_rest:
  "log_files (init_loop env ps st) = log_files st"
  "stdout_of (init_loop env ps st) = stdout_of st"
  "threads (init_loop env ps st) = threads st"
  "trace (init_loop env ps st) = trace st"
  by (induction env ps st rule: init_loop.induct) simp_all

lemma init_loop_dom: "dom (statuses (init_loop env ps st)) = fst ` set ps \<union> dom (statuses st)"
  by (induction env ps st rule: init_loop.induct) auto

lemma init_loop_keep:
  "i \<notin> fst ` set ps \<Longrightarrow> statuses (init_loop env ps st) i = statuses st i"
  by (induction env ps st rule: init_loop.induct) auto

lemma init_loop_status:
  "distinct (map fst ps) \<Longrightarrow> (i, info) \<in> set ps \<Longrightarrow>
   statuses (init_loop env ps st) i = Some (if port_open env (port info) then Unmanaged else Stopped)"
proof (induction env ps st rule: init_loop.induct)
  case (1 env st)
  then show ?case by simp
next
  case (2 env j inf ps st)
  show ?case
  proof (cases "(i, info) \<in> set ps")
    case True
    with 2 show ?thesis by simp
  next
    case False
    with "2.prems" have eq: "j = i" "inf = info" by auto
    from "2.prems" eq have notin: "i \<notin> fst ` set ps" by auto
    show ?thesis using init_loop_keep [OF notin] eq by simp
  qed
qed

lemma init_status:
  "(i, info) \<in> set PROJECTS \<Longrightarrow>
   statuses (init env files) i = Some (if port_open env (port info) then Unmanaged else Stopped)"
  unfolding init_def using distinct_PROJECTS by (rule init_loop_status)

lemma init_unknown: "i \<notin> fst ` set PROJECTS \<Longrightarrow> statuses (init env files) i = None"
  by (simp add: init_def init_loop_keep)

lemma init_fields:
  "processes (init env files) = Map.empty"
  "log_files (init env files) = files"
  "stdout_of (init env files) = Map.empty"
  "threads (init env files) = []"
  "trace (init env files) = []"
  by (simp_all add: init_def init_loop_processes init_loop_rest)

lemma tracked_init: "tracked (init env files)"
  by (simp add: tracked_def init_def init_loop_dom)

lemma handle_inv_init: "handle_inv (init env files)"
  by (simp add: handle_inv_def init_def init_loop_processes)

lemma reachable_idle: "reachable idle"
  unfolding idle_def by (rule r_init)

lemma idle_welcome: "statuses idle ''welcome'' = Some Stopped"
  using init_status [OF welcome_known, of quiet_os Map.empty]
  by (simp add: idle_def quiet_os_def mk_def)

subsection \<open>The invariants are kept by every operation\<close>

lemma start_handle_inv: "handle_inv st \<Longrightarrow> handle_inv (final (start env st i))"
  by (auto simp: handle_inv_def start_def Let_def split: option.splits spawn.splits)

lemma stop_processes: "processes (final (stop env st i)) = (processes st)(i := None)"
  by (auto simp: stop_def Let_def split: option.splits outcome.splits
           dest!: kill_port_ReturnedD kill_port_RaisedD)

lemma stop_statuses_other: "j \<noteq> i \<Longrightarrow> statuses (final (stop env st i)) j = statuses st j"
  by (auto simp: stop_def Let_def split: option.splits outcome.splits
           dest!: kill_port_ReturnedD kill_port_RaisedD)

lemma stop_handle_inv: "handle_inv st \<Longrightarrow> handle_inv (final (stop env st i))"
  unfolding handle_inv_def
proof (intro allI impI)
  fix j
  assume inv: "\<forall>i. processes st i \<noteq> None \<longrightarrow>
                 statuses st i = Some Building \<or> statuses st i = Some Running"
    and h: "processes (final (stop env st i)) j \<noteq> None"
  from h have ne: "j \<noteq> i" and p: "processes st j \<noteq> None"
    by (auto simp: stop_processes split: if_splits)
  from inv p have "statuses st j = Some Building \<or> statuses st j = Some Running" by blast
  with ne show "statuses (final (stop env st i)) j = Some Building
                \<or> statuses (final (stop env st i)) j = Some Running"
    by (simp add: stop_statuses_other)
qed

lemma update_one_handle_inv: "handle_inv st \<Longrightarrow> handle_inv (final (update_one env e st))"
  by (auto simp: handle_inv_def update_one_def Let_def split: option.splits)

lemma update_loop_handle_inv: "handle_inv st \<Longrightarrow> handle_inv (final (update_loop env ps st))"
proof (induction ps arbitrary: st)
  case Nil
  then show ?case by simp
next
  case (Cons e ps)
  from Cons.prems have h: "handle_inv (final (update_one env e st))"
    by (rule update_one_handle_inv)
  show ?case
  proof (cases "update_one env e st")
    case (Returned u st')
    with h Cons.IH [of st'] show ?thesis by simp
  next
    case (Raised x st')
    with h show ?thesis by simp
  qed
qed

lemma handle_inv_update: "handle_inv st \<Longrightarrow> handle_inv (final (update_statuses env st))"
  unfolding update_statuses_def by (rule update_loop_handle_inv)

lemma start_dom: "dom (statuses st) \<subseteq> dom (statuses (final (start env st i)))"
  by (auto simp: start_def Let_def split: option.splits spawn.splits)

lemma stop_dom: "dom (statuses st) \<subseteq> dom (statuses (final (stop env st i)))"
  by (auto simp: stop_def Let_def split: option.splits outcome.splits
           dest!: kill_port_ReturnedD kill_port_RaisedD)

lemma tracked_start: "tracked st \<Longrightarrow> tracked (final (start env st i))"
  using start_dom [of st env i] by (auto simp: tracked_def)

lemma tracked_stop: "tracked st \<Longrightarrow> tracked (final (stop env st i))"
  using stop_dom [of st env i] by (auto simp: tracked_def)









subsection \<open>One reconciliation tick, project by project\<close>

lemma update_one_other:
  "j \<noteq> fst e \<Longrightarrow> view (final (update_one env e st)) j = view st j"
  by (auto simp: view_def update_one_def Let_def split: option.splits)

lemma update_one_rest:
  "log_files (final (update_one env e st)) = log_files st"
  "threads (final (update_one env e st)) = threads st"
  "trace (final (update_one env e st)) = trace st"
  by (auto simp: update_one_def Let_def split: option.splits)

lemma update_one_returns:
  "fst e \<in> dom (statuses st) \<Longrightarrow> \<exists>st'. update_one env e st = Returned () st'"
  by (auto simp: update_one_def Let_def split: option.splits)

lemma update_one_dom:
  "dom (statuses st) \<subseteq> dom (statuses (final (update_one env e st)))"
  by (auto simp: update_one_def Let_def split: option.splits)

lemma update_one_view:
  "view st i = view st2 i \<Longrightarrow>
   view (final (update_one env (i, info) st)) i = view (final (update_one env (i, info) st2)) i"
  by (auto simp: view_def update_one_def Let_def split: option.splits)

text \<open>
  With distinct keys, the loop leaves for each project what the loop body computes for
  it from the state at the start of the tick, and never raises when every project has a
  status.
\<close>

lemma update_loop_views:
  assumes "distinct (map fst ps)" and "fst ` set ps \<subseteq> dom (statuses st)"
  shows "\<exists>st'. update_loop env ps st = Returned () st'
           \<and> (\<forall>j. j \<notin> fst ` set ps \<longrightarrow> view st' j = view st j)
           \<and> (\<forall>e \<in> set ps. view st' (fst e) = view (final (update_one env e st)) (fst e))
           \<and> dom (statuses st) \<subseteq> dom (statuses st')
           \<and> log_files st' = log_files st \<and> threads st' = threads st \<and> trace st' = trace st"
  using assms
proof (induction ps arbitrary: st)
  case Nil
  then show ?case by simp
next
  case (Cons e ps)
  obtain i info where e: "e = (i, info)" by (cases e)
  from Cons.prems have "fst e \<in> dom (statuses st)" by simp
  then obtain st1 where st1: "update_one env e st = Returned () st1"
    using update_one_returns by blast
  have dom1: "dom (statuses st) \<subseteq> dom (statuses st1)"
    using update_one_dom [of st env e] st1 by simp
  have other: "\<And>j. j \<noteq> i \<Longrightarrow> view st1 j = view st j"
    using update_one_other [of _ e env st] st1 e by simp
  have rest1: "log_files st1 = log_files st" "threads st1 = threads st" "trace st1 = trace st"
    using update_one_rest [of env e st] st1 by simp_all
  from Cons.prems have p1: "distinct (map fst ps)" by simp
  from Cons.prems have "fst ` set ps \<subseteq> dom (statuses st)" by simp
  then have p2: "fst ` set ps \<subseteq> dom (statuses st1)" using dom1 by (rule subset_trans)
  from Cons.IH [OF p1 p2] obtain st' where
    loop: "update_loop env ps st1 = Returned () st'" and
    out: "\<forall>j. j \<notin> fst ` set ps \<longrightarrow> view st' j = view st1 j" and
    inn: "\<forall>e \<in> set ps. view st' (fst e) = view (final (update_one env e st1)) (fst e)" and
    dom2: "dom (statuses st1) \<subseteq> dom (statuses st')" and
    rest2: "log_files st' = log_files st1" "threads st' = threads st1" "trace st' = trace st1"
    by blast
  from Cons.prems e have notin: "i \<notin> fst ` set ps" by auto
  have a: "update_loop env (e # ps) st = Returned () st'"
    using st1 loop by simp
  have b: "\<forall>j. j \<notin> fst ` set (e # ps) \<longrightarrow> view st' j = view st j"
    using out other e by auto
  have c: "\<forall>d \<in> set (e # ps). view st' (fst d) = view (final (update_one env d st)) (fst d)"
  proof
    fix d assume d: "d \<in> set (e # ps)"
    show "view st' (fst d) = view (final (update_one env d st)) (fst d)"
    proof (cases "d = e")
      case True
      with out notin e st1 show ?thesis by simp
    next
      case False
      with d have dps: "d \<in> set ps" by simp
      with notin have ne: "fst d \<noteq> i" by auto
      obtain k inf where dk: "d = (k, inf)" by (cases d)
      have "view st1 k = view st k" using other ne dk by simp
      then have "view (final (update_one env (k, inf) st1)) k
                 = view (final (update_one env (k, inf) st)) k"
        by (rule update_one_view)
      with inn dps dk show ?thesis by auto
    qed
  qed
  from a b c dom1 dom2 rest1 rest2 show ?case by auto
qed

lemma tracked_update: "tracked st \<Longrightarrow> tracked (final (update_statuses env st))"
proof -
  assume t: "tracked st"
  then have sub: "fst ` set PROJECTS \<subseteq> dom (statuses st)" by (simp add: tracked_def)
  from update_loop_views [OF distinct_PROJECTS sub, of env] obtain st' where
    "update_statuses env st = Returned () st'" and "dom (statuses st) \<subseteq> dom (statuses st')"
    unfolding update_statuses_def by blast
  with sub show ?thesis by (auto simp: tracked_def)
qed

subsection \<open>Reachable states\<close>

lemma reachable_inv: "reachable st \<Longrightarrow> handle_inv st \<and> tracked st"
proof (induction rule: reachable.induct)
  case (r_init env files)
  show ?case by (simp add: tracked_init handle_inv_init)
next
  case (r_start st env i)
  then show ?case by (simp add: tracked_start start_handle_inv)
next
  case (r_stop st env i)
  then show ?case by (simp add: tracked_stop stop_handle_inv)
next
  case (r_update st env)
  then show ?case by (simp add: tracked_update handle_inv_update)
next
  case (r_start_all st)
  then show ?case by (simp add: start_all_def tracked_def handle_inv_def)
next
  case (r_start_group st g)
  then show ?case by (simp add: start_group_def tracked_def handle_inv_def)
next
  case (r_sleep st)
  then show ?case by (simp add: tracked_def handle_inv_def)
qed


lemma reachable_staggered: "reachable st \<Longrightarrow> reachable (final (staggered env sel ps st))"
proof (induction env sel ps st rule: staggered.induct)
  case (1 env sel st)
  then show ?case by simp
next
  case (2 env sel i info ps st)
  show ?case
  proof (cases "sel info \<and> statuses st i = Some Stopped")
    case False
    with 2 show ?thesis by auto
  next
    case True
    from "2.prems" have r: "reachable (final (start env st i))" by (rule r_start)
    show ?thesis
    proof (cases "start env st i")
      case (Raised x st')
      with True r show ?thesis by simp
    next
      case (Returned b st')
      with r have "reachable st'" by simp
      then have "reachable (emit (Sleep 1) st')" by (rule r_sleep)
      with "2.IH"(1) [OF True Returned] True Returned show ?thesis by simp
    qed
  qed
qed

lemma reachable_stop_loop: "reachable st \<Longrightarrow> reachable (final (stop_loop env sel ps st))"
proof (induction env sel ps st rule: stop_loop.induct)
  case (1 env sel st)
  then show ?case by simp
next
  case (2 env sel i info ps st)
  let ?c = "sel info \<and> (statuses st i = Some Running \<or> statuses st i = Some Building
                          \<or> statuses st i = Some Unmanaged)"
  show ?case
  proof (cases ?c)
    case False
    with 2 show ?thesis by auto
  next
    case True
    from "2.prems" have r: "reachable (final (stop env st i))" by (rule r_stop)
    show ?thesis
    proof (cases "stop env st i")
      case (Raised x st')
      with True r show ?thesis by simp
    next
      case (Returned b st')
      with r have "reachable st'" by simp
      with "2.IH"(1) [OF True Returned] True Returned show ?thesis by simp
    qed
  qed
qed

lemma reachable_run_task: "reachable st \<Longrightarrow> reachable (final (run_task env t st))"
  by (cases t) (simp_all add: reachable_staggered)

subsection \<open>\<open>stop\<close>, and the loop of \<open>stop_all\<close> and \<open>stop_group\<close>\<close>

text \<open>What \<open>stop\<close> does to a project that has a handle, written out.\<close>

lemma stop_owned:
  assumes "processes st i = Some proc"
  shows "stop env st i =
     Returned True
       (st\<lparr>processes := (processes st)(i := None),
           statuses := (statuses st)(i \<mapsto> Stopped),
           exit_codes := (exit_codes st)(i \<mapsto> returncode (wait env proc)),
           trace := trace st
              @ (case getpgid env (pid proc) of None \<Rightarrow> [] | Some g \<Rightarrow> [Killpg g SIGTERM])
              @ [Wait (pid proc) 3]
              @ (if returncode (wait env proc) = None
                 then (case getpgid env (pid proc) of None \<Rightarrow> [] | Some g \<Rightarrow> [Killpg g SIGKILL])
                 else [])\<rparr>)"
  using assms by (simp add: stop_def Let_def killpg_try_def emit_def split: option.splits)













subsection \<open>The loop of the threads of \<open>start_all\<close> and \<open>start_group\<close>\<close>









subsection \<open>The example states\<close>

lemma serving_eq:
  "serving = idle\<lparr>log_files := (log_files idle)(''welcome'' \<mapsto> []),
                  processes := (processes idle)(''welcome'' \<mapsto> \<lparr>pid = 4242, returncode = None\<rparr>),
                  statuses := (statuses idle)(''welcome'' \<mapsto> Building),
                  exit_codes := (exit_codes idle)(''welcome'' \<mapsto> None),
                  stdout_of := [4242 \<mapsto> ''welcome''],
                  trace := [Spawn ''WELCOME'' 8080]\<rparr>"
  by (simp add: serving_def start_def welcome_info idle_welcome quiet_os_def Let_def mk_def)
     (simp add: idle_def init_fields)

lemma serving_welcome:
  "processes serving ''welcome'' = Some \<lparr>pid = 4242, returncode = None\<rparr>"
  "statuses serving ''welcome'' = Some Building"
  "threads serving = []"
  "trace serving = [Spawn ''WELCOME'' 8080]"
  by (simp_all add: serving_eq idle_def init_fields)

lemma logged_welcome:
  "statuses logged ''welcome'' = Some Stopped"
  "log_files logged ''welcome'' = Some [''old run'']"
  using init_status [OF welcome_known, of quiet_os]
  by (simp_all add: logged_def quiet_os_def mk_def init_fields)

lemma tracked_fleet: "tracked fleet"
  using tracked_init [of quiet_os Map.empty] by (auto simp: tracked_def fleet_def idle_def)

lemma fleet_members:
  "(''helios'', mk ''Helios'' 8081 ''HELIOS'' ''MAIN'') \<in> set PROJECTS"
  "(''blog'', mk ''Blog'' 8085 ''BLOG'' ''MAIN'') \<in> set PROJECTS"
  "(''arch'', mk ''Arch'' 8087 ''ARCH'' ''MAIN'') \<in> set PROJECTS"
  "(''mcad'', mk ''MCAD'' 8088 ''MCAD'' ''MAIN'') \<in> set PROJECTS"
  "(''atlas'', mk ''Atlas'' 8089 ''ATLAS'' ''MAIN'') \<in> set PROJECTS"
  "(''learn'', mk ''Learn Hub'' 8086 ''LEARN'' ''LEARN HUB'') \<in> set PROJECTS"
  "(''ai'', mk ''AI'' 8100 ''LEARN/AI'' ''LEARN'') \<in> set PROJECTS"
  "(''ubuntu'', mk ''Ubuntu'' 8101 ''LEARN/UBUNTU'' ''LEARN'') \<in> set PROJECTS"
  by (simp_all add: PROJECTS_def)

section \<open>The claims\<close>

text \<open>
  C1. One reconciliation tick (\<open>update_statuses\<close> on a manager that has a status for
  every project) returns, and for every project of the registry it leaves exactly what the
  transition table says, read from the state at the start of the tick: with a handle, an
  exit with code 0 gives status stopped, exit code 0 and no handle; an exit with another
  code gives status error with that code and no handle; no exit gives running when the port
  is open and building when it is not, the handle kept; without a handle, unmanaged becomes
  stopped when the port is closed and stays unmanaged when it is open, stopped becomes
  unmanaged when the port is open and stays stopped when it is closed, and error stays.
\<close>

theorem reconcile_table:
  assumes "(i, info) \<in> set PROJECTS" and "tracked st"
  shows "\<exists>st'. update_statuses env st = Returned () st' \<and>
    (\<forall>proc. processes st i = Some proc \<and> poll env proc = Some 0 \<longrightarrow>
        statuses st' i = Some Stopped \<and> exit_codes st' i = Some (Some 0) \<and> processes st' i = None) \<and>
    (\<forall>proc rc. processes st i = Some proc \<and> poll env proc = Some rc \<and> rc \<noteq> 0 \<longrightarrow>
        statuses st' i = Some Error \<and> exit_codes st' i = Some (Some rc) \<and> processes st' i = None) \<and>
    (\<forall>proc. processes st i = Some proc \<and> poll env proc = None \<and> port_open env (port info) \<longrightarrow>
        statuses st' i = Some Running \<and> exit_codes st' i = exit_codes st i
        \<and> processes st' i = Some proc) \<and>
    (\<forall>proc. processes st i = Some proc \<and> poll env proc = None \<and> \<not> port_open env (port info) \<longrightarrow>
        statuses st' i = Some Building \<and> exit_codes st' i = exit_codes st i
        \<and> processes st' i = Some proc) \<and>
    (processes st i = None \<and> statuses st i = Some Unmanaged \<and> \<not> port_open env (port info) \<longrightarrow>
        statuses st' i = Some Stopped \<and> exit_codes st' i = exit_codes st i \<and> processes st' i = None) \<and>
    (processes st i = None \<and> statuses st i = Some Unmanaged \<and> port_open env (port info) \<longrightarrow>
        statuses st' i = Some Unmanaged \<and> exit_codes st' i = exit_codes st i \<and> processes st' i = None) \<and>
    (processes st i = None \<and> statuses st i = Some Stopped \<and> port_open env (port info) \<longrightarrow>
        statuses st' i = Some Unmanaged \<and> exit_codes st' i = exit_codes st i \<and> processes st' i = None) \<and>
    (processes st i = None \<and> statuses st i = Some Stopped \<and> \<not> port_open env (port info) \<longrightarrow>
        statuses st' i = Some Stopped \<and> exit_codes st' i = exit_codes st i \<and> processes st' i = None) \<and>
    (processes st i = None \<and> statuses st i = Some Error \<longrightarrow>
        statuses st' i = Some Error \<and> exit_codes st' i = exit_codes st i \<and> processes st' i = None)"
proof -
  from assms(2) have sub: "fst ` set PROJECTS \<subseteq> dom (statuses st)"
    by (simp add: tracked_def)
  from update_loop_views [OF distinct_PROJECTS sub, of env] obtain st' where
    ret: "update_statuses env st = Returned () st'" and
    inn: "\<forall>e \<in> set PROJECTS. view st' (fst e) = view (final (update_one env e st)) (fst e)"
    unfolding update_statuses_def by blast
  from inn assms(1) have v: "view st' i = view (final (update_one env (i, info) st)) i"
    by fastforce
  have "processes st' i = processes (final (update_one env (i, info) st)) i"
       "statuses st' i = statuses (final (update_one env (i, info) st)) i"
       "exit_codes st' i = exit_codes (final (update_one env (i, info) st)) i"
    using v by (simp_all add: view_def)
  then show ?thesis
    using ret by (auto simp: update_one_def Let_def split: option.splits)
qed

theorem reconcile_table_witness:
  "view (final (update_statuses fleet_os fleet)) ''welcome'' = (None, Some Stopped, Some (Some 0))
   \<and> view (final (update_statuses fleet_os fleet)) ''helios'' = (None, Some Error, Some (Some 7))
   \<and> statuses (final (update_statuses fleet_os fleet)) ''blog'' = Some Running
   \<and> statuses (final (update_statuses fleet_os fleet)) ''arch'' = Some Building
   \<and> statuses (final (update_statuses fleet_os fleet)) ''mcad'' = Some Stopped
   \<and> statuses (final (update_statuses fleet_os fleet)) ''atlas'' = Some Unmanaged
   \<and> statuses (final (update_statuses fleet_os fleet)) ''learn'' = Some Unmanaged
   \<and> statuses (final (update_statuses fleet_os fleet)) ''ai'' = Some Stopped
   \<and> statuses (final (update_statuses fleet_os fleet)) ''ubuntu'' = Some Error"
proof -
  let ?t = "final (update_statuses fleet_os fleet)"
  note defs = fleet_def fleet_os_def quiet_os_def poll_def mk_def idle_def init_fields view_def
  have w1: "view ?t ''welcome'' = (None, Some Stopped, Some (Some 0))"
    using reconcile_table [OF welcome_known tracked_fleet, of fleet_os] by (auto simp: defs)
  have w2: "view ?t ''helios'' = (None, Some Error, Some (Some 7))"
    using reconcile_table [OF fleet_members(1) tracked_fleet, of fleet_os] by (auto simp: defs)
  have w3: "statuses ?t ''blog'' = Some Running"
    using reconcile_table [OF fleet_members(2) tracked_fleet, of fleet_os] by (auto simp: defs)
  have w4: "statuses ?t ''arch'' = Some Building"
    using reconcile_table [OF fleet_members(3) tracked_fleet, of fleet_os] by (auto simp: defs)
  have w5: "statuses ?t ''mcad'' = Some Stopped"
    using reconcile_table [OF fleet_members(4) tracked_fleet, of fleet_os] by (auto simp: defs)
  have w6: "statuses ?t ''atlas'' = Some Unmanaged"
    using reconcile_table [OF fleet_members(5) tracked_fleet, of fleet_os] by (auto simp: defs)
  have w7: "statuses ?t ''learn'' = Some Unmanaged"
    using reconcile_table [OF fleet_members(6) tracked_fleet, of fleet_os] by (auto simp: defs)
  have w8: "statuses ?t ''ai'' = Some Stopped"
    using reconcile_table [OF fleet_members(7) tracked_fleet, of fleet_os] by (auto simp: defs)
  have w9: "statuses ?t ''ubuntu'' = Some Error"
    using reconcile_table [OF fleet_members(8) tracked_fleet, of fleet_os] by (auto simp: defs)
  from w1 w2 w3 w4 w5 w6 w7 w8 w9 show ?thesis by simp
qed

text \<open>
  C2. \<open>start(id)\<close> returns \<open>False\<close> and leaves the manager exactly as it was (no status,
  handle, exit code or log file written, no process spawned, no other call to the operating
  system) when \<open>id\<close> is not a key of \<open>PROJECTS\<close> or when the project's status is running,
  building or unmanaged. In every reachable state, a call of \<open>start\<close> that does anything
  else is for a known project whose status is stopped or error.
\<close>

theorem start_guard:
  "(map_of PROJECTS i = None \<or> statuses st i = Some Running \<or> statuses st i = Some Building
      \<or> statuses st i = Some Unmanaged \<longrightarrow> start env st i = Returned False st)
   \<and> (reachable st \<and> start env st i \<noteq> Returned False st \<longrightarrow>
        map_of PROJECTS i \<noteq> None \<and> (statuses st i = Some Stopped \<or> statuses st i = Some Error))"
proof (intro conjI impI)
  assume "map_of PROJECTS i = None \<or> statuses st i = Some Running \<or> statuses st i = Some Building
      \<or> statuses st i = Some Unmanaged"
  then show "start env st i = Returned False st"
    by (auto simp: start_def split: option.splits)
next
  assume a: "reachable st \<and> start env st i \<noteq> Returned False st"
  then show "map_of PROJECTS i \<noteq> None"
    by (cases "map_of PROJECTS i") (auto simp: start_def)
next
  assume a: "reachable st \<and> start env st i \<noteq> Returned False st"
  then have known: "map_of PROJECTS i \<noteq> None"
    by (cases "map_of PROJECTS i") (auto simp: start_def)
  then obtain info where info: "map_of PROJECTS i = Some info" by blast
  then have "(i, info) \<in> set PROJECTS" by (rule map_of_SomeD)
  then have "i \<in> fst ` set PROJECTS" by force
  moreover from a have "tracked st" by (simp add: reachable_inv)
  ultimately obtain s where s: "statuses st i = Some s" by (auto simp: tracked_def)
  from a info s show "statuses st i = Some Stopped \<or> statuses st i = Some Error"
    by (cases s) (auto simp: start_def)
qed

theorem start_guard_witness:
  "start quiet_os idle ''nosuch'' = Returned False idle
   \<and> start quiet_os (final (start quiet_os idle ''welcome'')) ''welcome''
       = Returned False (final (start quiet_os idle ''welcome''))
   \<and> (statuses idle ''welcome'' = Some Stopped \<or> statuses idle ''welcome'' = Some Error)"
proof -
  let ?busy = "final (start quiet_os idle ''welcome'')"
  have started: "start quiet_os idle ''welcome'' \<noteq> Returned False idle"
    by (simp add: start_def welcome_info idle_welcome quiet_os_def Let_def)
  have busy: "statuses ?busy ''welcome'' = Some Building"
    by (simp add: start_def welcome_info idle_welcome quiet_os_def Let_def)
  from start_guard [of "''nosuch''" idle quiet_os] nosuch_unknown
  have a: "start quiet_os idle ''nosuch'' = Returned False idle" by simp
  from start_guard [of "''welcome''" ?busy quiet_os] busy
  have b: "start quiet_os ?busy ''welcome'' = Returned False ?busy" by simp
  from start_guard [of "''welcome''" idle quiet_os] reachable_idle started
  have c: "statuses idle ''welcome'' = Some Stopped \<or> statuses idle ''welcome'' = Some Error"
    by simp
  from a b c show ?thesis by simp
qed

text \<open>
  C3. \<open>stop\<close> on an owned project whose child does not exit within the 3 seconds after
  \<open>SIGTERM\<close>: the group gets \<open>SIGTERM\<close>, the wait of 3 times out, the group gets
  \<open>SIGKILL\<close>, the handle is removed, the status is stopped and \<open>True\<close> is returned; but
  \<open>stop\<close> does not wait or poll again after the kill, so \<open>proc.returncode\<close> is still
  \<open>None\<close> and that, not the exit code of the process, is what \<open>exit_codes\<close> gets.
  (Lemma \<open>stop_owned\<close> gives the result of \<open>stop\<close> for every owned project.)
\<close>

theorem stop_forced_no_exit_code:
  "processes serving ''welcome'' = Some \<lparr>pid = 4242, returncode = None\<rparr>
   \<and> stop stubborn_os serving ''welcome''
       = Returned True (final (stop stubborn_os serving ''welcome''))
   \<and> trace (final (stop stubborn_os serving ''welcome''))
       = [Spawn ''WELCOME'' 8080, Killpg 4242 SIGTERM, Wait 4242 3, Killpg 4242 SIGKILL]
   \<and> processes (final (stop stubborn_os serving ''welcome'')) ''welcome'' = None
   \<and> statuses (final (stop stubborn_os serving ''welcome'')) ''welcome'' = Some Stopped
   \<and> exit_codes (final (stop stubborn_os serving ''welcome'')) ''welcome'' = Some None"
proof -
  note p = serving_welcome(1)
  show ?thesis
    using serving_welcome
    by (simp add: stop_owned [OF p] wait_def stubborn_os_def quiet_os_def)
qed

text \<open>
  C4. In every reachable state, \<open>stop(id)\<close> for a project whose status is stopped returns
  \<open>False\<close> and leaves the manager exactly as it was.
\<close>

theorem stop_stopped:
  "reachable st \<Longrightarrow> statuses st i = Some Stopped \<Longrightarrow> stop env st i = Returned False st"
proof -
  assume r: "reachable st" and s: "statuses st i = Some Stopped"
  from r have "handle_inv st" by (simp add: reachable_inv)
  with s have "processes st i = None" by (auto simp: handle_inv_def)
  with s show ?thesis by (simp add: stop_def)
qed

theorem stop_stopped_witness:
  "statuses idle ''welcome'' = Some Stopped \<and> stop quiet_os idle ''welcome'' = Returned False idle"
proof -
  from stop_stopped [OF reachable_idle idle_welcome] idle_welcome show ?thesis by simp
qed




text \<open>
  C6, as stated, fails: \<open>start\<close> opens the log file with mode \<open>"w"\<close>. Started while
  \<open>welcome.log\<close> holds a line of an earlier run, it succeeds and leaves the file empty;
  the old content is not a prefix of the new one.
\<close>

theorem start_drops_old_log:
  "log_files logged ''welcome'' = Some [''old run'']
   \<and> start quiet_os logged ''welcome'' = Returned True (final (start quiet_os logged ''welcome''))
   \<and> log_files (final (start quiet_os logged ''welcome'')) ''welcome'' = Some []
   \<and> \<not> prefix (the (log_files logged ''welcome''))
               (the (log_files (final (start quiet_os logged ''welcome'')) ''welcome''))"
  using logged_welcome(2)
  by (simp add: start_def welcome_info logged_welcome(1) quiet_os_def Let_def)

text \<open>
  C6, amended. The per-project log file is rewritten by every run: a successful
  \<open>start(id)\<close> truncates the project's log file (creating it if need be), which discards
  what earlier runs left there, and gives the empty file to the new process, the one whose
  handle it stores, as its standard output and standard error; the log files of the other
  projects are left as they are.
\<close>

theorem start_truncates_log:
  "start env st i = Returned True st' \<Longrightarrow>
   log_files st' i = Some []
   \<and> (\<exists>n. processes st' i = Some \<lparr>pid = n, returncode = None\<rparr> \<and> stdout_of st' n = Some i)
   \<and> (\<forall>j. j \<noteq> i \<longrightarrow> log_files st' j = log_files st j)"
  by (auto simp: start_def Let_def split: option.splits if_splits spawn.splits)

theorem start_truncates_log_witness:
  "start quiet_os logged ''welcome'' = Returned True (final (start quiet_os logged ''welcome''))
   \<and> log_files (final (start quiet_os logged ''welcome'')) ''welcome'' = Some []
   \<and> processes (final (start quiet_os logged ''welcome'')) ''welcome''
       = Some \<lparr>pid = 4242, returncode = None\<rparr>
   \<and> stdout_of (final (start quiet_os logged ''welcome'')) 4242 = Some ''welcome''
   \<and> log_files (final (start quiet_os logged ''welcome'')) ''helios'' = log_files logged ''helios''"
proof -
  have r: "start quiet_os logged ''welcome''
           = Returned True (final (start quiet_os logged ''welcome''))"
    by (simp add: start_def welcome_info logged_welcome(1) quiet_os_def Let_def)
  have p: "processes (final (start quiet_os logged ''welcome'')) ''welcome''
           = Some \<lparr>pid = 4242, returncode = None\<rparr>"
    by (simp add: start_def welcome_info logged_welcome(1) quiet_os_def Let_def)
  from start_truncates_log [OF r] obtain n where
    l: "log_files (final (start quiet_os logged ''welcome'')) ''welcome'' = Some []" and
    h: "processes (final (start quiet_os logged ''welcome'')) ''welcome''
          = Some \<lparr>pid = n, returncode = None\<rparr>" and
    o: "stdout_of (final (start quiet_os logged ''welcome'')) n = Some ''welcome''" and
    k: "\<forall>j. j \<noteq> ''welcome'' \<longrightarrow>
          log_files (final (start quiet_os logged ''welcome'')) j = log_files logged j"
    by blast
  from p h have "n = 4242" by simp
  with r l p o k show ?thesis by simp
qed

text \<open>
  C7. For a known project in status stopped or error whose directory has a marker file and
  for which \<open>Popen\<close> succeeds, \<open>start(id)\<close> returns \<open>True\<close>, stores the new handle (the
  child's pid, no return code yet), sets the status to building and sets the exit code to
  \<open>None\<close>; what the manager holds for the other projects is unchanged.
\<close>

theorem start_success:
  assumes "map_of PROJECTS i = Some info"
    and "statuses st i = Some Stopped \<or> statuses st i = Some Error"
    and "exists_index env (dir info) \<or> exists_trunk env (dir info)"
    and "spawn_trunk env i = SpawnOK n"
  shows "\<exists>st'. start env st i = Returned True st'
           \<and> processes st' i = Some \<lparr>pid = n, returncode = None\<rparr>
           \<and> statuses st' i = Some Building
           \<and> exit_codes st' i = Some None
           \<and> (\<forall>j. j \<noteq> i \<longrightarrow> view st' j = view st j)"
  using assms by (auto simp: start_def Let_def view_def)

theorem start_success_witness:
  "exit_codes failed ''welcome'' = Some (Some 7)
   \<and> processes (final (start quiet_os failed ''welcome'')) ''welcome''
       = Some \<lparr>pid = 4242, returncode = None\<rparr>
   \<and> statuses (final (start quiet_os failed ''welcome'')) ''welcome'' = Some Building
   \<and> exit_codes (final (start quiet_os failed ''welcome'')) ''welcome'' = Some None"
proof -
  have s: "statuses failed ''welcome'' = Some Stopped \<or> statuses failed ''welcome'' = Some Error"
    by (simp add: failed_def)
  have m: "exists_index quiet_os (dir (mk ''Welcome'' 8080 ''WELCOME'' ''MAIN''))
           \<or> exists_trunk quiet_os (dir (mk ''Welcome'' 8080 ''WELCOME'' ''MAIN''))"
    by (simp add: quiet_os_def)
  have sp: "spawn_trunk quiet_os ''welcome'' = SpawnOK 4242"
    by (simp add: quiet_os_def)
  from start_success [OF welcome_info s m sp] obtain st' where
    "start quiet_os failed ''welcome'' = Returned True st'"
    "processes st' ''welcome'' = Some \<lparr>pid = 4242, returncode = None\<rparr>"
    "statuses st' ''welcome'' = Some Building"
    "exit_codes st' ''welcome'' = Some None"
    by blast
  then show ?thesis by (simp add: failed_def)
qed

text \<open>
  C8, as stated, fails when the operating system refuses the spawn with an error other
  than \<open>FileNotFoundError\<close>: \<open>start\<close> catches that exception only. With a \<open>trunk\<close>
  that may not be executed, \<open>start\<close> raises instead of returning and the status stays
  stopped.
\<close>

theorem start_permission_denied:
  "spawn_trunk denied_os ''welcome'' = SpawnOtherOSError
   \<and> start denied_os idle ''welcome'' = Raised OSError (final (start denied_os idle ''welcome''))
   \<and> statuses (final (start denied_os idle ''welcome'')) ''welcome'' = Some Stopped"
  by (simp add: start_def welcome_info idle_welcome denied_os_def quiet_os_def Let_def)

text \<open>
  C8, amended. For a known project that is not running, building or unmanaged: if its
  directory has neither \<open>index.html\<close> nor \<open>Trunk.toml\<close>, or if the spawn fails because
  the executable is not found (\<open>FileNotFoundError\<close>), then \<open>start(id)\<close> sets the status
  to error and returns \<open>False\<close>, with no handle stored and no process spawned.
\<close>

theorem start_refused:
  assumes "map_of PROJECTS i = Some info"
    and "statuses st i \<noteq> Some Running" and "statuses st i \<noteq> Some Building"
    and "statuses st i \<noteq> Some Unmanaged"
    and "(\<not> exists_index env (dir info) \<and> \<not> exists_trunk env (dir info))
         \<or> spawn_trunk env i = SpawnFileNotFound"
  shows "\<exists>st'. start env st i = Returned False st'
           \<and> statuses st' i = Some Error
           \<and> processes st' = processes st
           \<and> trace st' = trace st"
  using assms by (auto simp: start_def Let_def)

theorem start_refused_witness:
  "statuses (final (start bare_os idle ''welcome'')) ''welcome'' = Some Error
   \<and> start bare_os idle ''welcome'' = Returned False (final (start bare_os idle ''welcome''))
   \<and> processes (final (start bare_os idle ''welcome'')) ''welcome'' = None
   \<and> statuses (final (start missing_os idle ''welcome'')) ''welcome'' = Some Error
   \<and> start missing_os idle ''welcome'' = Returned False (final (start missing_os idle ''welcome''))
   \<and> processes (final (start missing_os idle ''welcome'')) ''welcome'' = None"
proof -
  have s: "statuses idle ''welcome'' \<noteq> Some Running" "statuses idle ''welcome'' \<noteq> Some Building"
    "statuses idle ''welcome'' \<noteq> Some Unmanaged"
    by (simp_all add: idle_welcome)
  have p: "processes idle ''welcome'' = None" by (simp add: idle_def init_fields)
  have m1: "(\<not> exists_index bare_os (dir (mk ''Welcome'' 8080 ''WELCOME'' ''MAIN''))
             \<and> \<not> exists_trunk bare_os (dir (mk ''Welcome'' 8080 ''WELCOME'' ''MAIN'')))
            \<or> spawn_trunk bare_os ''welcome'' = SpawnFileNotFound"
    by (simp add: bare_os_def quiet_os_def)
  have m2: "(\<not> exists_index missing_os (dir (mk ''Welcome'' 8080 ''WELCOME'' ''MAIN''))
             \<and> \<not> exists_trunk missing_os (dir (mk ''Welcome'' 8080 ''WELCOME'' ''MAIN'')))
            \<or> spawn_trunk missing_os ''welcome'' = SpawnFileNotFound"
    by (simp add: missing_os_def quiet_os_def)
  from start_refused [OF welcome_info s m1] start_refused [OF welcome_info s m2] p
  show ?thesis by auto
qed

text \<open>
  C9. A handle is held only for a project whose status is building or running: this holds
  after \<open>__init__\<close>, each of \<open>start\<close>, \<open>stop\<close> and \<open>update_statuses\<close> keeps it (also when
  the call raises), and so it holds in every reachable state.
\<close>

theorem handle_only_while_owned:
  "handle_inv (init env files)
   \<and> (handle_inv st \<longrightarrow>
        handle_inv (final (start env st i))
        \<and> handle_inv (final (stop env st i))
        \<and> handle_inv (final (update_statuses env st)))
   \<and> (reachable st \<longrightarrow> handle_inv st)"
  by (simp add: handle_inv_init start_handle_inv stop_handle_inv handle_inv_update reachable_inv)

theorem handle_only_while_owned_witness:
  "handle_inv idle
   \<and> handle_inv (final (start quiet_os idle ''welcome''))
   \<and> handle_inv (final (stop quiet_os idle ''welcome''))
   \<and> handle_inv (final (update_statuses quiet_os idle))"
proof -
  have i: "handle_inv idle"
    using handle_only_while_owned [of quiet_os Map.empty idle "''welcome''"]
    by (simp add: idle_def)
  with handle_only_while_owned [of quiet_os Map.empty idle "''welcome''"]
  show ?thesis by simp
qed

text \<open>
  C10. \<open>stop(id)\<close> for an id without a handle whose status is not unmanaged (a status of
  stopped or error, or an id the manager does not know at all) returns \<open>False\<close>, raises
  nothing and leaves the manager exactly as it was.
\<close>

theorem stop_without_handle:
  "processes st i = None \<Longrightarrow> statuses st i \<noteq> Some Unmanaged \<Longrightarrow> stop env st i = Returned False st"
  by (simp add: stop_def)

theorem stop_without_handle_witness:
  "stop quiet_os failed ''welcome'' = Returned False failed
   \<and> stop quiet_os idle ''nosuch'' = Returned False idle"
proof -
  have p1: "processes failed ''welcome'' = None"
    by (simp add: failed_def idle_def init_fields)
  have s1: "statuses failed ''welcome'' \<noteq> Some Unmanaged"
    by (simp add: failed_def)
  have p2: "processes idle ''nosuch'' = None"
    by (simp add: idle_def init_fields)
  have s2: "statuses idle ''nosuch'' \<noteq> Some Unmanaged"
    by (simp add: idle_def init_unknown [OF nosuch_untracked])
  from stop_without_handle [OF p1 s1] stop_without_handle [OF p2 s2] show ?thesis by simp
qed

end
